theory Spec2Isabelle
  imports Main
begin

section \<open>The application launcher (launcher.py)\<close>

text \<open>
  The launcher keeps one module-level dictionary, \<open>launched_apps\<close>, and talks to the
  operating system: it binds sockets, asks for the platform, looks at the file system,
  spawns child processes, polls and signals them, and sleeps. The embedding passes one
  state record through every function; the record holds the dictionary together with
  the part of the operating system the code can observe or change, and a log of the
  system calls made so far.
\<close>

subsection \<open>Python values, exceptions, and \<open>str\<close> of an integer\<close>

datatype pyval = PyStr string | PyInt int | PyNone

type_synonym pydict = "(string \<times> pyval) list"

text \<open>
  The exception classes that occur. All three derive from \<open>Exception\<close>;
  only \<open>OSError\<close> is caught by \<open>except OSError\<close>.
\<close>

datatype exn = Exception string | OSError string | OverflowError string

fun is_OSError :: "exn \<Rightarrow> bool" where
  "is_OSError (OSError m) = True"
| "is_OSError (Exception m) = False"
| "is_OSError (OverflowError m) = False"

text \<open>\<open>str(e)\<close>: the message the exception was built with.\<close>

fun str_exn :: "exn \<Rightarrow> string" where
  "str_exn (Exception m) = m"
| "str_exn (OSError m) = m"
| "str_exn (OverflowError m) = m"

definition digit :: "nat \<Rightarrow> char" where
  "digit d = ''0123456789'' ! d"

fun str_nat :: "nat \<Rightarrow> string" where
  "str_nat n = (if n < 10 then [digit n] else str_nat (n div 10) @ [digit (n mod 10)])"

declare str_nat.simps [simp del]

text \<open>\<open>str(i)\<close> and \<open>'{}'.format(i)\<close> for a Python integer: decimal, with a sign.\<close>

definition str_int :: "int \<Rightarrow> string" where
  "str_int i = (if i < 0 then CHR ''-'' # str_nat (nat (- i)) else str_nat (nat i))"

text \<open>\<open>range(a, b)\<close>: the integers from \<open>a\<close> up to, not including, \<open>b\<close>.\<close>

definition py_range :: "int \<Rightarrow> int \<Rightarrow> int list" where
  "py_range a b = [a..b - 1]"

text \<open>The value of an optional integer (the result of \<open>poll()\<close>) inside a dictionary.\<close>

fun pyval_of :: "int option \<Rightarrow> pyval" where
  "pyval_of None = PyNone"
| "pyval_of (Some c) = PyInt c"

subsection \<open>The state: the registry and the operating system around it\<close>

text \<open>
  A child process together with its \<open>subprocess.Popen\<close> handle.
  \<^item> \<open>returncode\<close> is the handle's attribute: \<open>None\<close> until a poll has seen the
    child terminated, then the exit status, for ever.
  \<^item> \<open>exit_status\<close> is the operating system's side: \<open>None\<close> while the child runs.
  \<^item> \<open>sigterm_pending\<close>: a termination request has been sent and not yet acted on.
  \<^item> \<open>on_term\<close>: how the child reacts to a termination request within one time unit:
    it terminates with that status, or (\<open>None\<close>) it is still running afterwards.
  \<^item> \<open>on_kill\<close>: the status the child ends with when it is killed.
\<close>

record child =
  returncode :: "int option"
  exit_status :: "int option"
  sigterm_pending :: bool
  on_term :: "int option"
  on_kill :: int

text \<open>What the operating system decides about a child that is about to be spawned.\<close>

record reaction =
  term_reaction :: "int option"
  kill_status :: int

text \<open>The system calls the launcher makes, in the order it makes them.\<close>

datatype event =
    SocketOpen
  | SocketBound int
  | SocketClose
  | Spawn nat "string list" "string \<rightharpoonup> string" nat
  | Terminate nat
  | Kill nat
  | Sleep int

text \<open>
  One entry of \<open>launched_apps\<close>: the dictionary
  \<open>{"process": ..., "port": ..., "status": ...}\<close>, a field for each key. The process
  is a reference to the \<open>Popen\<close> object, here the index of the child in \<open>procs\<close>.
\<close>

record proc_info =
  process_of :: nat
  port_of :: int
  status_of :: string

text \<open>
  \<^item> \<open>platform_system\<close>: what \<open>platform.system()\<close> returns;
  \<^item> \<open>os_path_join\<close>: \<open>os.path.join\<close> of the host, on two components;
  \<^item> \<open>os_path_exists\<close>: \<open>os.path.exists\<close>;
  \<^item> \<open>os_environ\<close>: \<open>os.environ\<close>;
  \<^item> \<open>bindable\<close>: whether a bind of a fresh TCP socket to that port on 127.0.0.1
    succeeds now (otherwise it raises \<open>OSError\<close>);
  \<^item> \<open>spawn_outcome\<close>: whether \<open>subprocess.Popen\<close> on these arguments and this
    environment raises, or which child it starts;
  \<^item> \<open>procs\<close>: the children and their handles; \<open>next_pid\<close>: the next free index;
  \<^item> \<open>trace\<close>: the system calls made so far;
  \<^item> \<open>launched_apps\<close>: the module's dictionary.
\<close>

record state =
  platform_system :: string
  os_path_join :: "string \<Rightarrow> string \<Rightarrow> string"
  os_path_exists :: "string \<Rightarrow> bool"
  os_environ :: "string \<rightharpoonup> string"
  bindable :: "int \<Rightarrow> bool"
  spawn_outcome :: "string list \<Rightarrow> (string \<rightharpoonup> string) \<Rightarrow> exn + reaction"
  procs :: "nat \<Rightarrow> child"
  next_pid :: nat
  trace :: "event list"
  launched_apps :: "string \<rightharpoonup> proc_info"

definition log_event :: "event list \<Rightarrow> state \<Rightarrow> state" where
  "log_event evs s = s\<lparr>trace := trace s @ evs\<rparr>"

subsection \<open>The library calls\<close>

text \<open>
  \<open>s.bind(("127.0.0.1", port))\<close>. CPython checks the port before it asks the
  operating system: a port outside 0..65535 raises \<open>OverflowError\<close>, which is not
  an \<open>OSError\<close>. Inside the range the bind succeeds or raises \<open>OSError\<close>
  (address in use, permission denied).
\<close>

definition socket_bind :: "int \<Rightarrow> state \<Rightarrow> exn + unit" where
  "socket_bind p s =
     (if p < 0 \<or> 65535 < p then Inl (OverflowError ''bind(): port must be 0-65535.'')
      else if bindable s p then Inr ()
      else Inl (OSError ''[Errno 98] Address already in use''))"

text \<open>
  \<open>Popen.poll()\<close>: the cached \<open>returncode\<close> if there is one; otherwise a
  non-blocking wait, whose answer is cached when the child has terminated.
\<close>

definition poll :: "nat \<Rightarrow> state \<Rightarrow> int option \<times> state" where
  "poll p s =
     (let c = procs s p in
      case returncode c of
        Some rc \<Rightarrow> (Some rc, s)
      | None \<Rightarrow> (exit_status c, s\<lparr>procs := (procs s)(p := c\<lparr>returncode := exit_status c\<rparr>)\<rparr>))"

text \<open>
  \<open>Popen.terminate()\<close>: nothing if the handle already knows the child is gone;
  otherwise the termination request is sent. A running child has it pending until
  time passes.
\<close>

definition terminate :: "nat \<Rightarrow> state \<Rightarrow> state" where
  "terminate p s =
     (let c = procs s p in
      if returncode c \<noteq> None then s
      else log_event [Terminate p]
             (if exit_status c = None
              then s\<lparr>procs := (procs s)(p := c\<lparr>sigterm_pending := True\<rparr>)\<rparr>
              else s))"

text \<open>
  \<open>Popen.kill()\<close>: the same, with the request that cannot be ignored. The model takes
  the kill as done when the call returns: the next poll sees the child terminated.
\<close>

definition kill :: "nat \<Rightarrow> state \<Rightarrow> state" where
  "kill p s =
     (let c = procs s p in
      if returncode c \<noteq> None then s
      else log_event [Kill p]
             (if exit_status c = None
              then s\<lparr>procs := (procs s)(p := c\<lparr>exit_status := Some (on_kill c)\<rparr>)\<rparr>
              else s))"

text \<open>
  \<open>time.sleep(n)\<close>: when at least one time unit passes, every running child with a
  pending termination request has reacted to it.
\<close>

definition settle :: "child \<Rightarrow> child" where
  "settle c =
     (if exit_status c = None \<and> sigterm_pending c
      then c\<lparr>exit_status := on_term c, sigterm_pending := False\<rparr>
      else c)"

definition time_sleep :: "int \<Rightarrow> state \<Rightarrow> state" where
  "time_sleep n s =
     log_event [Sleep n] (if 1 \<le> n then s\<lparr>procs := (\<lambda>p. settle (procs s p))\<rparr> else s)"

text \<open>
  \<open>subprocess.Popen(args, env=env, stdout=DEVNULL, stderr=DEVNULL, creationflags=f)\<close>:
  raises, or starts a running child and returns its handle.
\<close>

definition popen :: "string list \<Rightarrow> (string \<rightharpoonup> string) \<Rightarrow> nat \<Rightarrow> state \<Rightarrow> (exn + nat) \<times> state" where
  "popen args env creationflags s =
     (case spawn_outcome s args env of
        Inl e \<Rightarrow> (Inl e, s)
      | Inr r \<Rightarrow>
          (let p = next_pid s in
           (Inr p,
            log_event [Spawn p args env creationflags]
              (s\<lparr>procs := (procs s)(p := \<lparr>returncode = None, exit_status = None,
                                          sigterm_pending = False,
                                          on_term = term_reaction r, on_kill = kill_status r\<rparr>),
                 next_pid := Suc p\<rparr>))))"

text \<open>\<open>subprocess.CREATE_NO_WINDOW\<close>.\<close>

definition CREATE_NO_WINDOW :: nat where
  "CREATE_NO_WINDOW = 134217728"

subsection \<open>\<open>find_free_port\<close>\<close>

text \<open>
  The body of the \<open>for\<close> loop over the ports still to try. The \<open>with\<close> block closes
  the socket on every way out: on \<open>return\<close>, on \<open>continue\<close> and when an exception
  leaves it. \<open>None\<close>: the loop ran to its end.
\<close>

fun scan_ports :: "int list \<Rightarrow> state \<Rightarrow> (exn + int) option \<times> state" where
  "scan_ports [] s = (None, s)"
| "scan_ports (p # ports) s =
     (let s1 = log_event [SocketOpen] s in
      case socket_bind p s1 of
        Inr _ \<Rightarrow> (Some (Inr p), log_event [SocketBound p, SocketClose] s1)
      | Inl e \<Rightarrow>
          if is_OSError e then scan_ports ports (log_event [SocketClose] s1)
          else (Some (Inl e), log_event [SocketClose] s1))"

definition find_free_port :: "int \<Rightarrow> state \<Rightarrow> (exn + int) \<times> state" where
  "find_free_port start_port s =
     (case scan_ports (py_range start_port 9000) s of
        (Some r, s') \<Rightarrow> (r, s')
      | (None, s') \<Rightarrow>
          (Inl (Exception (''No free ports available between '' @ str_int start_port
                           @ '' and '' @ str_int 9000)), s'))"

text \<open>The events of the loop iterations that did not bind: a socket opened and closed.\<close>

definition failed_attempts :: "int list \<Rightarrow> event list" where
  "failed_attempts ports = concat (map (\<lambda>p. [SocketOpen, SocketClose]) ports)"

subsection \<open>\<open>launch_app\<close>\<close>

text \<open>
  Lines 23 to 36: \<open>script_path\<close> and \<open>command_executor\<close> for the host's platform, or
  \<open>None\<close> on the branch where the code returns the unsupported-platform result.
\<close>

definition resolve_script :: "string \<Rightarrow> state \<Rightarrow> (string \<times> string list) option" where
  "resolve_script app_name s =
     (let base_path = os_path_join s ''apps'' app_name;
          current_platform = platform_system s
      in if current_platform = ''Windows''
         then Some (os_path_join s base_path ''run.bat'', [''cmd'', ''/C''])
         else if current_platform \<in> set [''Darwin'', ''Linux'']
         then Some (os_path_join s base_path ''run.sh'', [''sh''])
         else None)"

definition launch_app :: "string \<Rightarrow> state \<Rightarrow> pydict \<times> state" where
  "launch_app app_name s =
     (let current_platform = platform_system s in
      case resolve_script app_name s of
        None \<Rightarrow>
          ([(''status'', PyStr ''error''),
            (''message'', PyStr (''Unsupported operating system: '' @ current_platform))], s)
      | Some (script_path, command_executor) \<Rightarrow>
          if \<not> os_path_exists s script_path
          then ([(''status'', PyStr ''error''),
                 (''message'', PyStr (''Startup script not found for '' @ app_name @ '' at ''
                                      @ script_path))], s)
          else
            (case find_free_port 8000 s of
               (Inl e, s1) \<Rightarrow>
                 ([(''status'', PyStr ''error''),
                   (''message'', PyStr (''Failed to launch '' @ app_name @ '': '' @ str_exn e))], s1)
             | (Inr port, s1) \<Rightarrow>
                 (let env = (os_environ s1)(''PORT'' \<mapsto> str_int port) in
                  case popen (command_executor @ [script_path]) env
                         (if current_platform = ''Windows'' then CREATE_NO_WINDOW else 0) s1 of
                    (Inl e, s2) \<Rightarrow>
                      ([(''status'', PyStr ''error''),
                        (''message'', PyStr (''Failed to launch '' @ app_name @ '': '' @ str_exn e))],
                       s2)
                  | (Inr process, s2) \<Rightarrow>
                      ([(''status'', PyStr ''success''),
                        (''message'', PyStr (app_name @ '' launched on port '' @ str_int port))],
                       s2\<lparr>launched_apps := (launched_apps s2)(app_name \<mapsto>
                            \<lparr>process_of = process, port_of = port, status_of = ''running''\<rparr>)\<rparr>))))"

subsection \<open>\<open>get_app_status\<close>\<close>

definition get_app_status :: "string \<Rightarrow> state \<Rightarrow> pydict \<times> state" where
  "get_app_status app_name s =
     (case launched_apps s app_name of
        Some proc_info \<Rightarrow>
          (let (r, s1) = poll (process_of proc_info) s in
           if r = None
           then ([(''status'', PyStr ''running''), (''port'', PyInt (port_of proc_info))], s1)
           else
             (let (exit_code, s2) = poll (process_of proc_info) s1 in
              ([(''status'', PyStr ''exited''), (''port'', PyInt (port_of proc_info)),
                (''exit_code'', pyval_of exit_code)],
               s2\<lparr>launched_apps := (launched_apps s2)(app_name \<mapsto>
                    proc_info\<lparr>status_of := ''exited''\<rparr>)\<rparr>)))
      | None \<Rightarrow> ([(''status'', PyStr ''not_launched'')], s))"

subsection \<open>\<open>stop_app\<close>\<close>

definition stop_app :: "string \<Rightarrow> state \<Rightarrow> pydict \<times> state" where
  "stop_app app_name s =
     (case launched_apps s app_name of
        Some proc_info \<Rightarrow>
          (let (r, s1) = poll (process_of proc_info) s in
           if r = None
           then
             (let s2 = terminate (process_of proc_info) s1;
                  s3 = time_sleep 1 s2;
                  (r', s4) = poll (process_of proc_info) s3;
                  s5 = (if r' = None then kill (process_of proc_info) s4 else s4)
              in ([(''status'', PyStr ''success''), (''message'', PyStr (app_name @ '' stopped.''))],
                  s5\<lparr>launched_apps := (launched_apps s5)(app_name \<mapsto>
                       proc_info\<lparr>status_of := ''stopped''\<rparr>)\<rparr>))
           else ([(''status'', PyStr ''not_running''),
                  (''message'', PyStr (app_name @ '' is not running.''))], s1))
      | None \<Rightarrow>
          ([(''status'', PyStr ''not_launched''),
            (''message'', PyStr (app_name @ '' was not launched.''))], s))"

text \<open>
  The state after a launch that got through: the state before it, with the new child, the
  events \<open>evs\<close> of the port scan followed by the spawn, and the new record.
\<close>

definition launched_state :: "string \<Rightarrow> string \<Rightarrow> string list \<Rightarrow> int \<Rightarrow> event list \<Rightarrow> reaction \<Rightarrow> state \<Rightarrow> state" where
  "launched_state name script exe port evs r s =
     s\<lparr>procs := (procs s)(next_pid s :=
             \<lparr>returncode = None, exit_status = None, sigterm_pending = False,
              on_term = term_reaction r, on_kill = kill_status r\<rparr>),
         next_pid := Suc (next_pid s),
         trace := trace s @ evs
           @ [Spawn (next_pid s) (exe @ [script]) ((os_environ s)(''PORT'' \<mapsto> str_int port))
                (if platform_system s = ''Windows'' then CREATE_NO_WINDOW else 0)],
         launched_apps := (launched_apps s)(name \<mapsto>
             \<lparr>process_of = next_pid s, port_of = port, status_of = ''running''\<rparr>)\<rparr>"

subsection \<open>What happens around the launcher\<close>

text \<open>A running child terminates on its own, with the given status.\<close>

definition child_exits :: "nat \<Rightarrow> int \<Rightarrow> state \<Rightarrow> state" where
  "child_exits p c s =
     (if exit_status (procs s p) = None
      then s\<lparr>procs := (procs s)(p := (procs s p)\<lparr>exit_status := Some c\<rparr>)\<rparr>
      else s)"

text \<open>
  The states the module can be in: it is imported with an empty dictionary, on any host;
  then its three functions are called, children terminate on their own, and files, ports,
  the environment and what a spawn will do change under it.
\<close>

inductive reachable :: "state \<Rightarrow> bool" where
  start: "launched_apps s = Map.empty \<Longrightarrow> reachable s"
| launch: "reachable s \<Longrightarrow> reachable (snd (launch_app app_name s))"
| get_status: "reachable s \<Longrightarrow> reachable (snd (get_app_status app_name s))"
| stop: "reachable s \<Longrightarrow> reachable (snd (stop_app app_name s))"
| exits: "reachable s \<Longrightarrow> reachable (child_exits p c s)"
| host_changes:
    "reachable s \<Longrightarrow>
     reachable (s\<lparr>os_path_exists := files, os_environ := env, bindable := ports,
                  spawn_outcome := spawns\<rparr>)"

text \<open>
  What can happen to a state once the records are there: a call of \<open>get_app_status\<close> or
  of \<open>stop_app\<close>, taken for its effect on the state, or a child that terminates on its own.
\<close>

datatype step = GetStatus string | Stop string | ChildExits nat int

fun run_step :: "step \<Rightarrow> state \<Rightarrow> state" where
  "run_step (GetStatus app_name) s = snd (get_app_status app_name s)"
| "run_step (Stop app_name) s = snd (stop_app app_name s)"
| "run_step (ChildExits p c) s = child_exits p c s"

fun run_steps :: "step list \<Rightarrow> state \<Rightarrow> state" where
  "run_steps [] s = s"
| "run_steps (x # xs) s = run_steps xs (run_step x s)"

text \<open>
  What holds of the registry in every reachable state: a record's process was spawned
  before, its status is one of the three strings, the handle of an \<open>exited\<close> record has
  seen the child terminated, and the child of a \<open>stopped\<close> record has terminated.
\<close>

definition registry_ok :: "state \<Rightarrow> bool" where
  "registry_ok s \<longleftrightarrow>
     (\<forall>name info. launched_apps s name = Some info \<longrightarrow>
        process_of info < next_pid s \<and>
        status_of info \<in> {''running'', ''exited'', ''stopped''} \<and>
        (status_of info = ''exited'' \<longrightarrow> returncode (procs s (process_of info)) \<noteq> None) \<and>
        (status_of info = ''stopped'' \<longrightarrow> exit_status (procs s (process_of info)) \<noteq> None))"

text \<open>
  From \<open>s\<close> to \<open>s'\<close> no child came back to life and no handle forgot what it saw, and no
  process was spawned.
\<close>

definition settled :: "state \<Rightarrow> state \<Rightarrow> bool" where
  "settled s s' \<longleftrightarrow>
     next_pid s' = next_pid s \<and>
     (\<forall>p. (returncode (procs s p) \<noteq> None \<longrightarrow> returncode (procs s' p) \<noteq> None) \<and>
          (exit_status (procs s p) \<noteq> None \<longrightarrow> exit_status (procs s' p) \<noteq> None))"

subsection \<open>Hosts to run the launcher on\<close>

text \<open>\<open>posixpath.join\<close> on two components.\<close>

definition posixpath_join :: "string \<Rightarrow> string \<Rightarrow> string" where
  "posixpath_join a b =
     (if take 1 b = ''/'' then b
      else if a = [] \<or> last a = CHR ''/'' then a @ b
      else a @ ''/'' @ b)"

text \<open>
  A Linux host on which \<open>apps/Alpha/run.sh\<close> is the only start script, the ports 8000
  and 8001 are taken, every spawn succeeds, and a child terminates when asked to.
\<close>

definition linux_host :: state where
  "linux_host =
     \<lparr>platform_system = ''Linux'',
      os_path_join = posixpath_join,
      os_path_exists = (\<lambda>path. path = ''apps/Alpha/run.sh''),
      os_environ = [''HOME'' \<mapsto> ''/root''],
      bindable = (\<lambda>p. 8002 \<le> p \<and> p \<le> 65535),
      spawn_outcome = (\<lambda>args env. Inr \<lparr>term_reaction = Some (- 15), kill_status = - 9\<rparr>),
      procs = (\<lambda>p. \<lparr>returncode = None, exit_status = None, sigterm_pending = False,
                     on_term = None, on_kill = - 9\<rparr>),
      next_pid = 100,
      trace = [],
      launched_apps = Map.empty\<rparr>"

text \<open>The Linux host after \<open>launch_app("Alpha")\<close>.\<close>

definition alpha_running :: state where
  "alpha_running = snd (launch_app ''Alpha'' linux_host)"



text \<open>
  Four more hosts: a Windows host on which every path exists, a host whose platform the
  launcher does not know, a host without a free port, and a host that cannot spawn.
\<close>

definition windows_host :: state where
  "windows_host =
     linux_host\<lparr>platform_system := ''Windows'',
                os_path_join := \<lambda>a b. a @ [CHR 0x5C] @ b,
                os_path_exists := \<lambda>path. True\<rparr>"

definition freebsd_host :: state where
  "freebsd_host = linux_host\<lparr>platform_system := ''FreeBSD''\<rparr>"

definition busy_host :: state where
  "busy_host = linux_host\<lparr>bindable := \<lambda>p. False\<rparr>"

definition broken_host :: state where
  "broken_host =
     linux_host\<lparr>spawn_outcome := \<lambda>args env. Inl (OSError ''[Errno 12] Cannot allocate memory'')\<rparr>"

text \<open>The Linux host after Alpha was launched and its start script was removed.\<close>

definition alpha_script_removed :: state where
  "alpha_script_removed = alpha_running\<lparr>os_path_exists := \<lambda>path. False\<rparr>"

text \<open>
  The Linux host after Alpha was launched and stopped; and after Alpha was launched,
  terminated on its own with status 0, and was seen terminated by a status query.
\<close>

definition alpha_stopped :: state where
  "alpha_stopped = snd (stop_app ''Alpha'' alpha_running)"

definition alpha_exited :: state where
  "alpha_exited = snd (get_app_status ''Alpha'' (child_exits 100 0 alpha_running))"

section \<open>Basic facts\<close>

lemma log_event_log_event [simp]: "log_event e2 (log_event e1 s) = log_event (e1 @ e2) s"
  by (simp add: log_event_def)

lemma log_event_Nil [simp]: "log_event [] s = s"
  by (simp add: log_event_def)

lemma log_event_fields [simp]:
  "platform_system (log_event e s) = platform_system s"
  "os_path_join (log_event e s) = os_path_join s"
  "os_path_exists (log_event e s) = os_path_exists s"
  "os_environ (log_event e s) = os_environ s"
  "bindable (log_event e s) = bindable s"
  "spawn_outcome (log_event e s) = spawn_outcome s"
  "procs (log_event e s) = procs s"
  "next_pid (log_event e s) = next_pid s"
  "trace (log_event e s) = trace s @ e"
  "launched_apps (log_event e s) = launched_apps s"
  by (simp_all add: log_event_def)

text \<open>Decimal numerals are evaluated with these rules.\<close>

lemma str_nat_small: "n < 10 \<Longrightarrow> str_nat n = [digit n]"
  by (simp add: str_nat.simps)

lemma str_nat_big: "10 \<le> n \<Longrightarrow> str_nat n = str_nat (n div 10) @ [digit (n mod 10)]"
  by (subst str_nat.simps) simp

lemmas str_int_eval = str_int_def str_nat_small str_nat_big digit_def

lemma str_int_9000: "str_int 9000 = ''9000''"
  by (simp add: str_int_eval)

lemma str_int_8000: "str_int 8000 = ''8000''"
  by (simp add: str_int_eval)

lemma str_int_8002: "str_int 8002 = ''8002''"
  by (simp add: str_int_eval)

section \<open>The port allocator\<close>

text \<open>
  The loop over an interval of valid port numbers: it either runs to the end, and then no
  port of the interval was bindable, or it returns the first bindable one. No exception
  leaves it. In both cases every socket it opened is closed again.
\<close>

lemma scan_ports_upto:
  "0 \<le> a \<Longrightarrow> b \<le> 65535 \<Longrightarrow>
   (case scan_ports [a..b] s of
      (None, s') \<Rightarrow>
        (\<forall>q. a \<le> q \<and> q \<le> b \<longrightarrow> \<not> bindable s q) \<and>
        s' = log_event (failed_attempts [a..b]) s
    | (Some (Inr p), s') \<Rightarrow>
        a \<le> p \<and> p \<le> b \<and> bindable s p \<and> (\<forall>q. a \<le> q \<and> q < p \<longrightarrow> \<not> bindable s q) \<and>
        s' = log_event (failed_attempts [a..p - 1] @ [SocketOpen, SocketBound p, SocketClose]) s
    | (Some (Inl e), s') \<Rightarrow> False)"
proof (induction a b arbitrary: s rule: upto.induct)
  case (1 i j)
  show ?case
  proof (cases "i \<le> j")
    case False
    then show ?thesis by (auto simp add: failed_attempts_def)
  next
    case True
    then have split: "[i..j] = i # [i + 1..j]" by (simp add: upto_rec1)
    show ?thesis
    proof (cases "bindable s i")
      case free: True
      with True 1(2,3) show ?thesis
        by (auto simp add: split socket_bind_def failed_attempts_def)
    next
      case taken: False
      let ?s2 = "log_event [SocketOpen, SocketClose] s"
      have step: "scan_ports [i..j] s = scan_ports [i + 1..j] ?s2"
        using True 1(2,3) taken by (simp add: split socket_bind_def)
      have IH: "(case scan_ports [i + 1..j] ?s2 of
          (None, s') \<Rightarrow>
            (\<forall>q. i + 1 \<le> q \<and> q \<le> j \<longrightarrow> \<not> bindable ?s2 q) \<and>
            s' = log_event (failed_attempts [i + 1..j]) ?s2
        | (Some (Inr p), s') \<Rightarrow>
            i + 1 \<le> p \<and> p \<le> j \<and> bindable ?s2 p \<and>
            (\<forall>q. i + 1 \<le> q \<and> q < p \<longrightarrow> \<not> bindable ?s2 q) \<and>
            s' = log_event (failed_attempts [i + 1..p - 1]
                            @ [SocketOpen, SocketBound p, SocketClose]) ?s2
        | (Some (Inl e), s') \<Rightarrow> False)"
        using 1(1)[OF True, of ?s2] 1(2,3) by simp
      have low: "\<And>q. i \<le> q \<Longrightarrow> q \<noteq> i \<Longrightarrow> i + 1 \<le> q" by arith
      show ?thesis
        using IH taken True unfolding step
        by (auto split: prod.splits option.splits sum.splits
                 simp: upto_rec1 failed_attempts_def dest: low)
    qed
  qed
qed





text \<open>The allocator changes nothing but the trace.\<close>

lemma scan_ports_logs: "\<exists>evs. snd (scan_ports ports s) = log_event evs s"
proof (induction ports arbitrary: s)
  case Nil
  have "snd (scan_ports [] s) = log_event [] s" by simp
  then show ?case by blast
next
  case (Cons p ports)
  show ?case
  proof (cases "socket_bind p (log_event [SocketOpen] s)")
    case (Inr u)
    then have "snd (scan_ports (p # ports) s) = log_event [SocketOpen, SocketBound p, SocketClose] s"
      by simp
    then show ?thesis by blast
  next
    case (Inl e)
    show ?thesis
    proof (cases "is_OSError e")
      case True
      from Cons[of "log_event [SocketOpen, SocketClose] s"] obtain evs
        where "snd (scan_ports ports (log_event [SocketOpen, SocketClose] s))
               = log_event evs (log_event [SocketOpen, SocketClose] s)" by blast
      with Inl True have "snd (scan_ports (p # ports) s) = log_event ([SocketOpen, SocketClose] @ evs) s"
        by simp
      then show ?thesis by blast
    next
      case False
      with Inl have "snd (scan_ports (p # ports) s) = log_event [SocketOpen, SocketClose] s"
        by simp
      then show ?thesis by blast
    qed
  qed
qed

lemma find_free_port_logs: "\<exists>evs. snd (find_free_port start_port s) = log_event evs s"
proof -
  obtain evs where "snd (scan_ports (py_range start_port 9000) s) = log_event evs s"
    using scan_ports_logs by blast
  then have "snd (find_free_port start_port s) = log_event evs s"
    by (cases "scan_ports (py_range start_port 9000) s")
       (simp add: find_free_port_def split: option.splits)
  then show ?thesis by blast
qed

text \<open>The two outcomes of the allocator, from what is bindable.\<close>

lemma find_free_port_first:
  assumes "0 \<le> start_port" and "start_port \<le> p" and "p < 9000" and "bindable s p"
    and least: "\<forall>q. start_port \<le> q \<and> q < p \<longrightarrow> \<not> bindable s q"
  shows "find_free_port start_port s =
     (Inr p, log_event (failed_attempts [start_port..p - 1]
                        @ [SocketOpen, SocketBound p, SocketClose]) s)"
proof -
  obtain r s1 where scan: "scan_ports [start_port..8999] s = (r, s1)"
    by (cases "scan_ports [start_port..8999] s")
  note spec = scan_ports_upto[of start_port 8999 s, unfolded scan]
  show ?thesis
  proof (cases r)
    case None
    with spec assms(1) have "\<forall>q. start_port \<le> q \<and> q \<le> 8999 \<longrightarrow> \<not> bindable s q" by simp
    with assms(2,3,4) show ?thesis by auto
  next
    case (Some x)
    show ?thesis
    proof (cases x)
      case (Inl e)
      with spec Some assms(1) show ?thesis by simp
    next
      case (Inr p')
      with spec Some assms(1)
      have p': "bindable s p'" "start_port \<le> p'"
        "\<forall>q. start_port \<le> q \<and> q < p' \<longrightarrow> \<not> bindable s q"
        and s1: "s1 = log_event (failed_attempts [start_port..p' - 1]
                        @ [SocketOpen, SocketBound p', SocketClose]) s"
        by simp_all
      have "\<not> p < p'" using p'(3) assms(2,4) by auto
      moreover have "\<not> p' < p" using least p'(1,2) by auto
      ultimately have "p' = p" by simp
      with s1 Some Inr show ?thesis
        by (simp add: find_free_port_def py_range_def scan)
    qed
  qed
qed

lemma find_free_port_none:
  assumes "0 \<le> start_port" and "\<forall>q. start_port \<le> q \<and> q < 9000 \<longrightarrow> \<not> bindable s q"
  shows "find_free_port start_port s =
     (Inl (Exception (''No free ports available between '' @ str_int start_port @ '' and 9000'')),
      log_event (failed_attempts (py_range start_port 9000)) s)"
proof -
  obtain r s1 where scan: "scan_ports [start_port..8999] s = (r, s1)"
    by (cases "scan_ports [start_port..8999] s")
  note spec = scan_ports_upto[of start_port 8999 s, unfolded scan]
  show ?thesis
  proof (cases r)
    case None
    with spec assms(1) have "s1 = log_event (failed_attempts [start_port..8999]) s" by simp
    with None show ?thesis
      by (simp add: find_free_port_def py_range_def scan str_int_9000)
  next
    case (Some x)
    show ?thesis
    proof (cases x)
      case (Inl e)
      with spec Some assms(1) show ?thesis by simp
    next
      case (Inr p')
      with spec Some assms(1) have "bindable s p'" "start_port \<le> p'" "p' \<le> 8999" by simp_all
      with assms(2) show ?thesis by auto
    qed
  qed
qed

section \<open>Polling a child\<close>

lemma poll_result:
  "fst (poll p s) = (case returncode (procs s p) of Some rc \<Rightarrow> Some rc
                     | None \<Rightarrow> exit_status (procs s p))"
  by (simp add: poll_def Let_def split: option.splits)

lemma poll_fields [simp]:
  "platform_system (snd (poll p s)) = platform_system s"
  "os_path_join (snd (poll p s)) = os_path_join s"
  "os_path_exists (snd (poll p s)) = os_path_exists s"
  "os_environ (snd (poll p s)) = os_environ s"
  "bindable (snd (poll p s)) = bindable s"
  "spawn_outcome (snd (poll p s)) = spawn_outcome s"
  "next_pid (snd (poll p s)) = next_pid s"
  "trace (snd (poll p s)) = trace s"
  "launched_apps (snd (poll p s)) = launched_apps s"
  by (simp_all add: poll_def Let_def split: option.splits)

lemma poll_procs:
  "procs (snd (poll p s)) = (procs s)(p := (procs s p)\<lparr>returncode := fst (poll p s)\<rparr>)"
  by (auto simp add: poll_def Let_def split: option.splits)

lemma poll_again: "poll p (snd (poll p s)) = (fst (poll p s), snd (poll p s))" if "fst (poll p s) \<noteq> None"
  using that by (auto simp add: poll_def Let_def split: option.splits)

section \<open>The launcher on the Linux host\<close>

lemma resolve_script_linux_host:
  "resolve_script ''Alpha'' linux_host = Some (''apps/Alpha/run.sh'', [''sh''])"
  by (simp add: resolve_script_def linux_host_def posixpath_join_def)

lemma find_free_port_linux_host:
  "find_free_port 8000 linux_host =
     (Inr 8002, log_event [SocketOpen, SocketClose, SocketOpen, SocketClose,
                           SocketOpen, SocketBound 8002, SocketClose] linux_host)"
proof -
  have "bindable linux_host = (\<lambda>p. 8002 \<le> p \<and> p \<le> 65535)"
    by (simp add: linux_host_def)
  then have "find_free_port 8000 linux_host =
     (Inr 8002, log_event (failed_attempts [8000..8002 - 1]
                        @ [SocketOpen, SocketBound 8002, SocketClose]) linux_host)"
    by (intro find_free_port_first) simp_all
  then show ?thesis by (simp add: failed_attempts_def)
qed

lemma launch_alpha:
  "launch_app ''Alpha'' linux_host =
     ([(''status'', PyStr ''success''), (''message'', PyStr ''Alpha launched on port 8002'')],
      alpha_running)"
  by (simp add: alpha_running_def launch_app_def resolve_script_linux_host
      find_free_port_linux_host popen_def str_int_8002)
     (simp add: linux_host_def str_int_8002)

lemma alpha_running_fields:
  "launched_apps alpha_running =
     [''Alpha'' \<mapsto> \<lparr>process_of = 100, port_of = 8002, status_of = ''running''\<rparr>]"
  "procs alpha_running 100 = \<lparr>returncode = None, exit_status = None, sigterm_pending = False,
                            on_term = Some (- 15), on_kill = - 9\<rparr>"
  by (simp_all add: alpha_running_def launch_app_def resolve_script_linux_host
      find_free_port_linux_host popen_def str_int_8002)
     (simp_all add: linux_host_def str_int_8002)

section \<open>The status query\<close>

text \<open>
  C2. For every name, \<open>get_app_status\<close> returns \<open>not_launched\<close> when the registry has
  no record for the name. Otherwise it polls the record's process without blocking: when
  the poll shows the child alive it returns \<open>running\<close> with the record's port (and leaves
  the registry as it is); when the poll shows it terminated with status \<open>c\<close> it sets the
  record's status to \<open>exited\<close> and returns \<open>exited\<close> with the record's port and the
  exit code \<open>c\<close>, an integer and so not \<open>None\<close>.
\<close>

theorem get_app_status_spec:
  "(launched_apps s name = None \<longrightarrow>
      get_app_status name s = ([(''status'', PyStr ''not_launched'')], s)) \<and>
   (\<forall>info. launched_apps s name = Some info \<longrightarrow>
      (fst (poll (process_of info) s) = None \<longrightarrow>
         fst (get_app_status name s) =
           [(''status'', PyStr ''running''), (''port'', PyInt (port_of info))] \<and>
         launched_apps (snd (get_app_status name s)) = launched_apps s) \<and>
      (\<forall>c. fst (poll (process_of info) s) = Some c \<longrightarrow>
         fst (get_app_status name s) =
           [(''status'', PyStr ''exited''), (''port'', PyInt (port_of info)),
            (''exit_code'', PyInt c)] \<and>
         launched_apps (snd (get_app_status name s)) =
           (launched_apps s)(name \<mapsto> info\<lparr>status_of := ''exited''\<rparr>)))"
proof (intro conjI allI impI)
  assume "launched_apps s name = None"
  then show "get_app_status name s = ([(''status'', PyStr ''not_launched'')], s)"
    by (simp add: get_app_status_def)
next
  fix info
  assume info: "launched_apps s name = Some info" and alive: "fst (poll (process_of info) s) = None"
  obtain r s1 where p: "poll (process_of info) s = (r, s1)" by (cases "poll (process_of info) s")
  with alive have "r = None" by simp
  with info p show "fst (get_app_status name s) =
      [(''status'', PyStr ''running''), (''port'', PyInt (port_of info))]"
    by (simp add: get_app_status_def)
  from poll_fields(9)[of "process_of info" s] p have "launched_apps s1 = launched_apps s" by simp
  with info p \<open>r = None\<close> show "launched_apps (snd (get_app_status name s)) = launched_apps s"
    by (simp add: get_app_status_def)
next
  fix info c
  assume info: "launched_apps s name = Some info" and dead: "fst (poll (process_of info) s) = Some c"
  obtain s1 where p: "poll (process_of info) s = (Some c, s1)"
    using dead by (cases "poll (process_of info) s") simp
  have again: "poll (process_of info) s1 = (Some c, s1)"
    using poll_again[of "process_of info" s] p by simp
  from poll_fields(9)[of "process_of info" s] p have reg: "launched_apps s1 = launched_apps s" by simp
  from info p again show "fst (get_app_status name s) =
      [(''status'', PyStr ''exited''), (''port'', PyInt (port_of info)), (''exit_code'', PyInt c)]"
    by (simp add: get_app_status_def)
  from info p again reg show "launched_apps (snd (get_app_status name s)) =
      (launched_apps s)(name \<mapsto> info\<lparr>status_of := ''exited''\<rparr>)"
    by (simp add: get_app_status_def)
qed

text \<open>
  The three cases on the Linux host: before the launch of Alpha, after it, and after the
  child has terminated on its own with status 0.
\<close>

theorem get_app_status_spec_witness:
  "fst (get_app_status ''Alpha'' linux_host) = [(''status'', PyStr ''not_launched'')] \<and>
   fst (get_app_status ''Alpha'' alpha_running) =
     [(''status'', PyStr ''running''), (''port'', PyInt 8002)] \<and>
   fst (get_app_status ''Alpha'' (child_exits 100 0 alpha_running)) =
     [(''status'', PyStr ''exited''), (''port'', PyInt 8002), (''exit_code'', PyInt 0)] \<and>
   map_option status_of (launched_apps (snd (get_app_status ''Alpha'' (child_exits 100 0 alpha_running))) ''Alpha'')
     = Some ''exited''"
proof -
  have none: "launched_apps linux_host ''Alpha'' = None" by (simp add: linux_host_def)
  have a: "fst (get_app_status ''Alpha'' linux_host) = [(''status'', PyStr ''not_launched'')]"
    using get_app_status_spec[of linux_host "''Alpha''"] none by simp
  let ?info = "\<lparr>process_of = 100, port_of = 8002, status_of = ''running''\<rparr>"
  have info: "launched_apps alpha_running ''Alpha'' = Some ?info"
    by (simp add: alpha_running_fields)
  have alive: "fst (poll (process_of ?info) alpha_running) = None"
    by (simp add: poll_result alpha_running_fields)
  have b: "fst (get_app_status ''Alpha'' alpha_running) =
     [(''status'', PyStr ''running''), (''port'', PyInt 8002)]"
    using get_app_status_spec[of alpha_running "''Alpha''"] info alive by simp
  let ?s = "child_exits 100 0 alpha_running"
  have info': "launched_apps ?s ''Alpha'' = Some ?info"
    by (simp add: child_exits_def alpha_running_fields)
  have dead: "fst (poll (process_of ?info) ?s) = Some 0"
    by (simp add: poll_result child_exits_def alpha_running_fields)
  have c: "fst (get_app_status ''Alpha'' ?s) =
     [(''status'', PyStr ''exited''), (''port'', PyInt 8002), (''exit_code'', PyInt 0)] \<and>
     launched_apps (snd (get_app_status ''Alpha'' ?s)) =
           (launched_apps ?s)(''Alpha'' \<mapsto> ?info\<lparr>status_of := ''exited''\<rparr>)"
    using get_app_status_spec[of ?s "''Alpha''"] info' dead by simp
  from a b c show ?thesis by simp
qed

section \<open>Stopping a child\<close>

lemma poll_alive: "poll p s = (None, s)" if "fst (poll p s) = None"
proof -
  from that have rc: "returncode (procs s p) = None" and ex: "exit_status (procs s p) = None"
    by (auto simp add: poll_result split: option.splits)
  have "(procs s p)\<lparr>returncode := None\<rparr> = procs s p" using rc by simp
  then have "(procs s)(p := (procs s p)\<lparr>returncode := None\<rparr>) = procs s" by simp
  then have "s\<lparr>procs := (procs s)(p := (procs s p)\<lparr>returncode := None\<rparr>)\<rparr> = s" by simp
  then show ?thesis using rc ex by (simp add: poll_def)
qed

text \<open>Signals and sleeping leave the host and the registry alone.\<close>

lemma terminate_fields [simp]:
  "platform_system (terminate p s) = platform_system s"
  "os_path_join (terminate p s) = os_path_join s"
  "os_path_exists (terminate p s) = os_path_exists s"
  "os_environ (terminate p s) = os_environ s"
  "bindable (terminate p s) = bindable s"
  "spawn_outcome (terminate p s) = spawn_outcome s"
  "next_pid (terminate p s) = next_pid s"
  "launched_apps (terminate p s) = launched_apps s"
  by (simp_all add: terminate_def Let_def)

lemma kill_fields [simp]:
  "platform_system (kill p s) = platform_system s"
  "os_path_join (kill p s) = os_path_join s"
  "os_path_exists (kill p s) = os_path_exists s"
  "os_environ (kill p s) = os_environ s"
  "bindable (kill p s) = bindable s"
  "spawn_outcome (kill p s) = spawn_outcome s"
  "next_pid (kill p s) = next_pid s"
  "launched_apps (kill p s) = launched_apps s"
  by (simp_all add: kill_def Let_def)

lemma time_sleep_fields [simp]:
  "platform_system (time_sleep n s) = platform_system s"
  "os_path_join (time_sleep n s) = os_path_join s"
  "os_path_exists (time_sleep n s) = os_path_exists s"
  "os_environ (time_sleep n s) = os_environ s"
  "bindable (time_sleep n s) = bindable s"
  "spawn_outcome (time_sleep n s) = spawn_outcome s"
  "next_pid (time_sleep n s) = next_pid s"
  "launched_apps (time_sleep n s) = launched_apps s"
  "trace (time_sleep n s) = trace s @ [Sleep n]"
  by (simp_all add: time_sleep_def)

lemma poll_dead: "fst (poll p s) \<noteq> None" if "exit_status (procs s p) \<noteq> None"
  using that by (auto simp add: poll_result split: option.splits)

lemma alive_iff: "fst (poll p s) = None \<longleftrightarrow> returncode (procs s p) = None \<and> exit_status (procs s p) = None"
  by (auto simp add: poll_result split: option.splits)

lemma poll_keeps_registry: "poll p s = (r, s') \<Longrightarrow> launched_apps s' = launched_apps s"
  using poll_fields(9)[of p s] by simp

text \<open>\<open>stop_app\<close> on a record whose child is running.\<close>

lemma stop_app_running:
  assumes info: "launched_apps s name = Some info" and alive: "fst (poll (process_of info) s) = None"
  shows "stop_app name s =
     (let p = process_of info;
          s3 = time_sleep 1 (terminate p s);
          s5 = (if fst (poll p s3) = None then kill p (snd (poll p s3)) else snd (poll p s3))
      in ([(''status'', PyStr ''success''), (''message'', PyStr (name @ '' stopped.''))],
          s5\<lparr>launched_apps := (launched_apps s)(name \<mapsto> info\<lparr>status_of := ''stopped''\<rparr>)\<rparr>))"
proof -
  have p0: "poll (process_of info) s = (None, s)" using alive by (rule poll_alive)
  let ?p = "process_of info"
  let ?s3 = "time_sleep 1 (terminate ?p s)"
  obtain r' s4 where p3: "poll ?p ?s3 = (r', s4)" by (cases "poll ?p ?s3")
  have reg: "launched_apps s4 = launched_apps s"
    using poll_keeps_registry[OF p3] by simp
  show ?thesis
    using info p0 p3 reg by (simp add: stop_app_def Let_def)
qed


text \<open>
  One time unit after the termination request the child has the status \<open>on_term\<close>
  says, and the handle has not seen it yet.
\<close>

lemma after_grace:
  assumes "returncode (procs s p) = None" and "exit_status (procs s p) = None"
  shows "procs (time_sleep 1 (terminate p s)) p =
           (procs s p)\<lparr>exit_status := on_term (procs s p), sigterm_pending := False\<rparr>"
    and "trace (time_sleep 1 (terminate p s)) = trace s @ [Terminate p, Sleep 1]"
  using assms by (simp_all add: time_sleep_def terminate_def settle_def)

lemma repoll_after_grace:
  assumes "returncode (procs s p) = None" and "exit_status (procs s p) = None"
  shows "fst (poll p (time_sleep 1 (terminate p s))) = on_term (procs s p)"
  using after_grace(1)[OF assms] assms by (simp add: poll_result)

lemma stop_app_running_effect:
  assumes info: "launched_apps s name = Some info" and alive: "fst (poll (process_of info) s) = None"
  shows "trace (snd (stop_app name s)) =
           trace s @ [Terminate (process_of info), Sleep 1]
           @ (if fst (poll (process_of info) (time_sleep 1 (terminate (process_of info) s))) = None
              then [Kill (process_of info)] else [])"
    and "exit_status (procs (snd (stop_app name s)) (process_of info)) \<noteq> None"
    and "launched_apps (snd (stop_app name s)) =
           (launched_apps s)(name \<mapsto> info\<lparr>status_of := ''stopped''\<rparr>)"
proof -
  let ?p = "process_of info"
  let ?s3 = "time_sleep 1 (terminate ?p s)"
  from alive have rc: "returncode (procs s ?p) = None" and ex: "exit_status (procs s ?p) = None"
    by (simp_all add: alive_iff)
  note grace = after_grace[OF rc ex]
  have repoll: "fst (poll ?p ?s3) = on_term (procs s ?p)"
    using rc ex by (rule repoll_after_grace)
  have s4_trace: "trace (snd (poll ?p ?s3)) = trace s @ [Terminate ?p, Sleep 1]"
    using grace(2) by simp
  have s4_proc: "procs (snd (poll ?p ?s3)) ?p =
      (procs s ?p)\<lparr>returncode := on_term (procs s ?p), exit_status := on_term (procs s ?p),
                    sigterm_pending := False\<rparr>"
    using repoll grace(1) by (simp add: poll_procs)
  show "trace (snd (stop_app name s)) =
           trace s @ [Terminate ?p, Sleep 1] @ (if fst (poll ?p ?s3) = None then [Kill ?p] else [])"
    using s4_trace s4_proc repoll
    by (simp add: stop_app_running[OF info alive] Let_def kill_def)
  show "exit_status (procs (snd (stop_app name s)) ?p) \<noteq> None"
    using s4_proc repoll
    by (auto simp add: stop_app_running[OF info alive] Let_def kill_def)
  show "launched_apps (snd (stop_app name s)) =
           (launched_apps s)(name \<mapsto> info\<lparr>status_of := ''stopped''\<rparr>)"
    by (simp add: stop_app_running[OF info alive] Let_def)
qed

section \<open>The launcher on the second host\<close>


text \<open>A launch that gets through every check, step by step.\<close>

lemma launch_app_success:
  assumes script: "resolve_script name s = Some (script, exe)"
    and found: "os_path_exists s script"
    and free: "find_free_port 8000 s = (Inr port, log_event evs s)"
    and spawned: "spawn_outcome s (exe @ [script]) ((os_environ s)(''PORT'' \<mapsto> str_int port)) = Inr r"
  shows "launch_app name s =
     ([(''status'', PyStr ''success''),
       (''message'', PyStr (name @ '' launched on port '' @ str_int port))],
      s\<lparr>procs := (procs s)(next_pid s :=
             \<lparr>returncode = None, exit_status = None, sigterm_pending = False,
              on_term = term_reaction r, on_kill = kill_status r\<rparr>),
         next_pid := Suc (next_pid s),
         trace := trace s @ evs
           @ [Spawn (next_pid s) (exe @ [script]) ((os_environ s)(''PORT'' \<mapsto> str_int port))
                (if platform_system s = ''Windows'' then CREATE_NO_WINDOW else 0)],
         launched_apps := (launched_apps s)(name \<mapsto>
             \<lparr>process_of = next_pid s, port_of = port, status_of = ''running''\<rparr>)\<rparr>)"
  using assms by (simp add: launch_app_def popen_def log_event_def Let_def)




section \<open>The stop request\<close>




text \<open>The records and children of the example states.\<close>

lemma alpha_info:
  "launched_apps alpha_running ''Alpha'' =
     Some \<lparr>process_of = 100, port_of = 8002, status_of = ''running''\<rparr>"
  "fst (poll 100 alpha_running) = None"
  "fst (poll 100 (time_sleep 1 (terminate 100 alpha_running))) = Some (- 15)"
  by (simp_all add: alpha_running_fields alive_iff repoll_after_grace)


lemma alpha_exited_info:
  "launched_apps (child_exits 100 0 alpha_running) ''Alpha'' =
     Some \<lparr>process_of = 100, port_of = 8002, status_of = ''running''\<rparr>"
  "fst (poll 100 (child_exits 100 0 alpha_running)) = Some 0"
  by (simp_all add: child_exits_def alpha_running_fields poll_result)



section \<open>Launching\<close>

text \<open>The five ways through \<open>launch_app\<close>.\<close>

lemma launch_app_unsupported:
  "resolve_script name s = None \<Longrightarrow>
   launch_app name s =
     ([(''status'', PyStr ''error''),
       (''message'', PyStr (''Unsupported operating system: '' @ platform_system s))], s)"
  by (simp add: launch_app_def)

lemma launch_app_script_missing:
  "resolve_script name s = Some (script, exe) \<Longrightarrow> \<not> os_path_exists s script \<Longrightarrow>
   launch_app name s =
     ([(''status'', PyStr ''error''),
       (''message'', PyStr (''Startup script not found for '' @ name @ '' at '' @ script))], s)"
  by (simp add: launch_app_def)

lemma launch_app_no_port:
  "resolve_script name s = Some (script, exe) \<Longrightarrow> os_path_exists s script \<Longrightarrow>
   find_free_port 8000 s = (Inl e, s1) \<Longrightarrow>
   launch_app name s =
     ([(''status'', PyStr ''error''),
       (''message'', PyStr (''Failed to launch '' @ name @ '': '' @ str_exn e))], s1)"
  by (simp add: launch_app_def)

lemma launch_app_spawn_fails:
  "resolve_script name s = Some (script, exe) \<Longrightarrow> os_path_exists s script \<Longrightarrow>
   find_free_port 8000 s = (Inr port, s1) \<Longrightarrow>
   spawn_outcome s1 (exe @ [script]) ((os_environ s1)(''PORT'' \<mapsto> str_int port)) = Inl e \<Longrightarrow>
   launch_app name s =
     ([(''status'', PyStr ''error''),
       (''message'', PyStr (''Failed to launch '' @ name @ '': '' @ str_exn e))], s1)"
  by (simp add: launch_app_def popen_def Let_def)

lemma launch_app_outcomes:
  obtains
    (unsupported) "resolve_script name s = None"
      "launch_app name s =
         ([(''status'', PyStr ''error''),
           (''message'', PyStr (''Unsupported operating system: '' @ platform_system s))], s)"
  | (missing) script exe where "resolve_script name s = Some (script, exe)"
      "\<not> os_path_exists s script"
      "launch_app name s =
         ([(''status'', PyStr ''error''),
           (''message'', PyStr (''Startup script not found for '' @ name @ '' at '' @ script))], s)"
  | (no_port) script exe e evs where "resolve_script name s = Some (script, exe)"
      "os_path_exists s script"
      "find_free_port 8000 s = (Inl e, log_event evs s)"
      "launch_app name s =
         ([(''status'', PyStr ''error''),
           (''message'', PyStr (''Failed to launch '' @ name @ '': '' @ str_exn e))],
          log_event evs s)"
  | (spawn_fails) script exe port evs e where "resolve_script name s = Some (script, exe)"
      "os_path_exists s script"
      "find_free_port 8000 s = (Inr port, log_event evs s)"
      "spawn_outcome s (exe @ [script]) ((os_environ s)(''PORT'' \<mapsto> str_int port)) = Inl e"
      "launch_app name s =
         ([(''status'', PyStr ''error''),
           (''message'', PyStr (''Failed to launch '' @ name @ '': '' @ str_exn e))],
          log_event evs s)"
  | (launched) script exe port evs r where "resolve_script name s = Some (script, exe)"
      "os_path_exists s script"
      "find_free_port 8000 s = (Inr port, log_event evs s)"
      "spawn_outcome s (exe @ [script]) ((os_environ s)(''PORT'' \<mapsto> str_int port)) = Inr r"
      "launch_app name s =
         ([(''status'', PyStr ''success''),
           (''message'', PyStr (name @ '' launched on port '' @ str_int port))],
          launched_state name script exe port evs r s)"
proof (cases "resolve_script name s")
  case None
  then show ?thesis using unsupported launch_app_unsupported by blast
next
  case (Some a)
  then obtain script exe where rs: "resolve_script name s = Some (script, exe)"
    by (cases a) simp
  show ?thesis
  proof (cases "os_path_exists s script")
    case False
    with rs show ?thesis using missing launch_app_script_missing by blast
  next
    case True
    obtain evs where logs: "snd (find_free_port 8000 s) = log_event evs s"
      using find_free_port_logs by blast
    show ?thesis
    proof (cases "fst (find_free_port 8000 s)")
      case (Inl e)
      with logs have ffp: "find_free_port 8000 s = (Inl e, log_event evs s)"
        by (simp add: prod_eq_iff)
      from no_port[OF rs True ffp launch_app_no_port[OF rs True ffp]] show ?thesis .
    next
      case (Inr port)
      with logs have ffp: "find_free_port 8000 s = (Inr port, log_event evs s)"
        by (simp add: prod_eq_iff)
      show ?thesis
      proof (cases "spawn_outcome s (exe @ [script]) ((os_environ s)(''PORT'' \<mapsto> str_int port))")
        case (Inl e)
        then have "spawn_outcome (log_event evs s) (exe @ [script])
           ((os_environ (log_event evs s))(''PORT'' \<mapsto> str_int port)) = Inl e" by simp
        from spawn_fails[OF rs True ffp Inl launch_app_spawn_fails[OF rs True ffp this]]
        show ?thesis .
      next
        case (Inr r)
        from launched[OF rs True ffp Inr]
          launch_app_success[OF rs True ffp Inr]
        show ?thesis by (simp add: launched_state_def)
      qed
    qed
  qed
qed


text \<open>Right after a launch the new child is running.\<close>

lemma launched_state_fields [simp]:
  "launched_apps (launched_state name script exe port evs r s) =
     (launched_apps s)(name \<mapsto> \<lparr>process_of = next_pid s, port_of = port, status_of = ''running''\<rparr>)"
  "procs (launched_state name script exe port evs r s) =
     (procs s)(next_pid s := \<lparr>returncode = None, exit_status = None, sigterm_pending = False,
                              on_term = term_reaction r, on_kill = kill_status r\<rparr>)"
  "next_pid (launched_state name script exe port evs r s) = Suc (next_pid s)"
  "trace (launched_state name script exe port evs r s) =
     trace s @ evs @ [Spawn (next_pid s) (exe @ [script])
                        ((os_environ s)(''PORT'' \<mapsto> str_int port))
                        (if platform_system s = ''Windows'' then CREATE_NO_WINDOW else 0)]"
  by (simp_all add: launched_state_def)

lemma launched_state_status:
  "get_app_status name (launched_state name script exe port evs r s) =
     ([(''status'', PyStr ''running''), (''port'', PyInt port)],
      launched_state name script exe port evs r s)"
proof -
  let ?s' = "launched_state name script exe port evs r s"
  have "fst (poll (next_pid s) ?s') = None" by (simp add: alive_iff)
  then have "poll (next_pid s) ?s' = (None, ?s')" by (rule poll_alive)
  then show ?thesis by (simp add: get_app_status_def)
qed

text \<open>
  C4. When \<open>launch_app\<close> succeeds, the port is the one the allocator returns from 8000
  on; the child is spawned with the platform's interpreter and the script, in an
  environment that is the parent's with \<open>PORT\<close> set to the decimal string of that port;
  the record stored for the name has that process, that port and the status
  \<open>running\<close>; the result carries the port in its message; and \<open>get_app_status\<close>
  right after it returns \<open>running\<close> with the same port.
\<close>

theorem launch_app_success_spec:
  assumes "launch_app name s = (res, s')"
    and "map_of res ''status'' = Some (PyStr ''success'')"
  shows "\<exists>script exe port.
     resolve_script name s = Some (script, exe) \<and>
     fst (find_free_port 8000 s) = Inr port \<and>
     last (trace s') = Spawn (next_pid s) (exe @ [script])
                         ((os_environ s)(''PORT'' \<mapsto> str_int port))
                         (if platform_system s = ''Windows'' then CREATE_NO_WINDOW else 0) \<and>
     launched_apps s' = (launched_apps s)(name \<mapsto>
                          \<lparr>process_of = next_pid s, port_of = port, status_of = ''running''\<rparr>) \<and>
     res = [(''status'', PyStr ''success''),
            (''message'', PyStr (name @ '' launched on port '' @ str_int port))] \<and>
     fst (get_app_status name s') = [(''status'', PyStr ''running''), (''port'', PyInt port)]"
proof -
  have ok: "map_of (fst (launch_app name s)) ''status'' = Some (PyStr ''success'')"
    using assms by simp
  show ?thesis
  proof (cases rule: launch_app_outcomes[of name s])
    case (launched script exe port evs r)
    with assms have res: "res = [(''status'', PyStr ''success''),
            (''message'', PyStr (name @ '' launched on port '' @ str_int port))]"
      and s': "s' = launched_state name script exe port evs r s" by simp_all
    have "fst (find_free_port 8000 s) = Inr port" using launched(3) by simp
    with launched(1) res show ?thesis
      unfolding s' by (intro exI[of _ script] exI[of _ exe] exI[of _ port])
        (simp add: launched_state_status)
  qed (use ok in simp_all)
qed

text \<open>
  C5. \<open>launch_app\<close> always returns a result dictionary. Its status is \<open>success\<close> or
  \<open>error\<close>; an error result has a message and leaves the registry (and the children)
  as they were. Each failure gives an error result: a platform the launcher does not
  support, a missing script, an exception of the port allocator, an exception of the spawn.
\<close>

theorem launch_app_never_raises:
  "\<exists>res s'. launch_app name s = (res, s') \<and>
     (map_of res ''status'' = Some (PyStr ''success'') \<or>
      map_of res ''status'' = Some (PyStr ''error'') \<and>
      (\<exists>msg. map_of res ''message'' = Some (PyStr msg)) \<and>
      launched_apps s' = launched_apps s \<and> procs s' = procs s) \<and>
     (resolve_script name s = None \<longrightarrow> map_of res ''status'' = Some (PyStr ''error'')) \<and>
     (\<forall>script exe. resolve_script name s = Some (script, exe) \<longrightarrow>
        (\<not> os_path_exists s script \<longrightarrow> map_of res ''status'' = Some (PyStr ''error'')) \<and>
        (\<forall>e. fst (find_free_port 8000 s) = Inl e \<longrightarrow>
           map_of res ''status'' = Some (PyStr ''error'')) \<and>
        (\<forall>port e. fst (find_free_port 8000 s) = Inr port \<longrightarrow>
           spawn_outcome s (exe @ [script]) ((os_environ s)(''PORT'' \<mapsto> str_int port)) = Inl e \<longrightarrow>
           map_of res ''status'' = Some (PyStr ''error'')))"
proof (cases rule: launch_app_outcomes[of name s])
  case unsupported
  then show ?thesis by simp
next
  case (missing script exe)
  then show ?thesis by simp
next
  case (no_port script exe e evs)
  then show ?thesis by simp
next
  case (spawn_fails script exe port evs e)
  then show ?thesis by simp
next
  case (launched script exe port evs r)
  then show ?thesis by simp
qed

text \<open>
  C8 (as amended). If the start script resolved for the platform does not exist,
  \<open>launch_app\<close> returns the error result that says so and names the path, and the state
  is unchanged, so no record is created; if there was no record for the name before, a
  \<open>get_app_status\<close> that follows returns \<open>not_launched\<close>.
\<close>

theorem launch_app_script_not_found:
  assumes "resolve_script name s = Some (script, exe)" and "\<not> os_path_exists s script"
  shows "launch_app name s =
           ([(''status'', PyStr ''error''),
             (''message'', PyStr (''Startup script not found for '' @ name @ '' at '' @ script))], s) \<and>
         (launched_apps s name = None \<longrightarrow>
            fst (get_app_status name (snd (launch_app name s))) = [(''status'', PyStr ''not_launched'')])"
  using assms by (simp add: launch_app_script_missing get_app_status_def)


section \<open>The launcher on the other hosts\<close>

lemma find_free_port_8002:
  assumes "bindable h = (\<lambda>p. 8002 \<le> p \<and> p \<le> 65535)"
  shows "find_free_port 8000 h =
     (Inr 8002, log_event [SocketOpen, SocketClose, SocketOpen, SocketClose,
                           SocketOpen, SocketBound 8002, SocketClose] h)"
proof -
  have "find_free_port 8000 h =
     (Inr 8002, log_event (failed_attempts [8000..8002 - 1]
                        @ [SocketOpen, SocketBound 8002, SocketClose]) h)"
    using assms by (intro find_free_port_first) simp_all
  then show ?thesis by (simp add: failed_attempts_def)
qed

lemma resolve_script_beta:
  "resolve_script ''Beta'' linux_host = Some (''apps/Beta/run.sh'', [''sh''])"
  by (simp add: resolve_script_def linux_host_def posixpath_join_def)

lemma resolve_script_hosts:
  "resolve_script ''Alpha'' windows_host
     = Some (''apps'' @ [CHR 0x5C] @ ''Alpha'' @ [CHR 0x5C] @ ''run.bat'', [''cmd'', ''/C''])"
  "resolve_script ''Alpha'' freebsd_host = None"
  "resolve_script ''Alpha'' busy_host = Some (''apps/Alpha/run.sh'', [''sh''])"
  "resolve_script ''Alpha'' broken_host = Some (''apps/Alpha/run.sh'', [''sh''])"
  by (simp_all add: resolve_script_def windows_host_def freebsd_host_def busy_host_def
      broken_host_def linux_host_def posixpath_join_def)

text \<open>The launch of Alpha on the Linux host.\<close>

theorem launch_app_success_spec_witness:
  "fst (launch_app ''Alpha'' linux_host) =
     [(''status'', PyStr ''success''), (''message'', PyStr ''Alpha launched on port 8002'')] \<and>
   last (trace alpha_running) =
     Spawn 100 [''sh'', ''apps/Alpha/run.sh'']
       [''HOME'' \<mapsto> ''/root'', ''PORT'' \<mapsto> ''8002''] 0 \<and>
   launched_apps alpha_running =
     [''Alpha'' \<mapsto> \<lparr>process_of = 100, port_of = 8002, status_of = ''running''\<rparr>] \<and>
   fst (get_app_status ''Alpha'' alpha_running) =
     [(''status'', PyStr ''running''), (''port'', PyInt 8002)]"
proof -
  have ok: "map_of [(''status'', PyStr ''success''),
                    (''message'', PyStr ''Alpha launched on port 8002'')] ''status''
            = Some (PyStr ''success'')" by simp
  have host: "os_environ linux_host = [''HOME'' \<mapsto> ''/root'']" "next_pid linux_host = 100"
    "platform_system linux_host = ''Linux''" "launched_apps linux_host = Map.empty"
    by (simp_all add: linux_host_def)
  from launch_app_success_spec[OF launch_alpha ok] show ?thesis
    by (auto simp add: launch_alpha resolve_script_linux_host find_free_port_linux_host
        str_int_8002 host)
qed


lemma find_free_port_busy_host:
  "fst (find_free_port 8000 busy_host)
     = Inl (Exception ''No free ports available between 8000 and 9000'')"
proof -
  have "\<forall>q. 8000 \<le> q \<and> q < 9000 \<longrightarrow> \<not> bindable busy_host q"
    by (simp add: busy_host_def)
  then show ?thesis by (simp add: find_free_port_none str_int_8000)
qed

lemma broken_host_facts:
  "os_path_exists broken_host ''apps/Alpha/run.sh''"
  "fst (find_free_port 8000 broken_host) = Inr 8002"
  "spawn_outcome broken_host ([''sh''] @ [''apps/Alpha/run.sh''])
     ((os_environ broken_host)(''PORT'' \<mapsto> str_int 8002))
     = Inl (OSError ''[Errno 12] Cannot allocate memory'')"
proof -
  have "bindable broken_host = (\<lambda>p. 8002 \<le> p \<and> p \<le> 65535)"
    by (simp add: broken_host_def linux_host_def)
  then show "fst (find_free_port 8000 broken_host) = Inr 8002"
    by (simp add: find_free_port_8002)
qed (simp_all add: broken_host_def linux_host_def)

text \<open>
  The four failures: an unknown platform, the missing script of Beta, no free port, a
  spawn that raises.
\<close>

theorem launch_app_never_raises_witness:
  "map_of (fst (launch_app ''Alpha'' freebsd_host)) ''status'' = Some (PyStr ''error'') \<and>
   launched_apps (snd (launch_app ''Alpha'' freebsd_host)) = launched_apps freebsd_host \<and>
   map_of (fst (launch_app ''Beta'' linux_host)) ''status'' = Some (PyStr ''error'') \<and>
   launched_apps (snd (launch_app ''Beta'' linux_host)) = launched_apps linux_host \<and>
   map_of (fst (launch_app ''Alpha'' busy_host)) ''status'' = Some (PyStr ''error'') \<and>
   launched_apps (snd (launch_app ''Alpha'' busy_host)) = launched_apps busy_host \<and>
   map_of (fst (launch_app ''Alpha'' broken_host)) ''status'' = Some (PyStr ''error'') \<and>
   launched_apps (snd (launch_app ''Alpha'' broken_host)) = launched_apps broken_host"
proof -
  have a: "map_of (fst (launch_app ''Alpha'' freebsd_host)) ''status'' = Some (PyStr ''error'') \<and>
      launched_apps (snd (launch_app ''Alpha'' freebsd_host)) = launched_apps freebsd_host"
    using launch_app_never_raises[of "''Alpha''" freebsd_host] resolve_script_hosts(2)
    by auto
  have "\<not> os_path_exists linux_host ''apps/Beta/run.sh''" by (simp add: linux_host_def)
  then have b: "map_of (fst (launch_app ''Beta'' linux_host)) ''status'' = Some (PyStr ''error'') \<and>
      launched_apps (snd (launch_app ''Beta'' linux_host)) = launched_apps linux_host"
    using launch_app_never_raises[of "''Beta''" linux_host] resolve_script_beta
    by auto
  have c: "map_of (fst (launch_app ''Alpha'' busy_host)) ''status'' = Some (PyStr ''error'') \<and>
      launched_apps (snd (launch_app ''Alpha'' busy_host)) = launched_apps busy_host"
    using launch_app_never_raises[of "''Alpha''" busy_host] resolve_script_hosts(3)
      find_free_port_busy_host
    by auto
  have d: "map_of (fst (launch_app ''Alpha'' broken_host)) ''status'' = Some (PyStr ''error'') \<and>
      launched_apps (snd (launch_app ''Alpha'' broken_host)) = launched_apps broken_host"
    using launch_app_never_raises[of "''Alpha''" broken_host] resolve_script_hosts(4)
      broken_host_facts(2,3)
    by auto
  from a b c d show ?thesis by simp
qed

text \<open>Beta, which has no start script, on the Linux host.\<close>

theorem launch_app_script_not_found_witness:
  "launch_app ''Beta'' linux_host =
     ([(''status'', PyStr ''error''),
       (''message'', PyStr ''Startup script not found for Beta at apps/Beta/run.sh'')],
      linux_host) \<and>
   fst (get_app_status ''Beta'' (snd (launch_app ''Beta'' linux_host)))
     = [(''status'', PyStr ''not_launched'')]"
proof -
  have missing: "\<not> os_path_exists linux_host ''apps/Beta/run.sh''"
    and fresh: "launched_apps linux_host ''Beta'' = None"
    by (simp_all add: linux_host_def)
  note found = launch_app_script_not_found[OF resolve_script_beta missing]
  from found have a: "launch_app ''Beta'' linux_host =
     ([(''status'', PyStr ''error''),
       (''message'', PyStr ''Startup script not found for Beta at apps/Beta/run.sh'')],
      linux_host)" by simp
  from found fresh have b: "fst (get_app_status ''Beta'' (snd (launch_app ''Beta'' linux_host)))
     = [(''status'', PyStr ''not_launched'')]" by blast
  from a b show ?thesis by (intro conjI)
qed

lemma alpha_running_eq:
  "alpha_running =
     linux_host\<lparr>procs := (procs linux_host)(100 :=
             \<lparr>returncode = None, exit_status = None, sigterm_pending = False,
              on_term = Some (- 15), on_kill = - 9\<rparr>),
         next_pid := 101,
         trace := [SocketOpen, SocketClose, SocketOpen, SocketClose,
                   SocketOpen, SocketBound 8002, SocketClose,
                   Spawn 100 [''sh'', ''apps/Alpha/run.sh'']
                     [''HOME'' \<mapsto> ''/root'', ''PORT'' \<mapsto> ''8002''] 0],
         launched_apps := [''Alpha'' \<mapsto>
             \<lparr>process_of = 100, port_of = 8002, status_of = ''running''\<rparr>]\<rparr>"
  by (simp add: alpha_running_def launch_app_def resolve_script_linux_host
      find_free_port_linux_host popen_def str_int_8002 log_event_def)
     (simp add: linux_host_def str_int_8002)

lemma alpha_script_removed_facts:
  "resolve_script ''Alpha'' alpha_script_removed = Some (''apps/Alpha/run.sh'', [''sh''])"
  "\<not> os_path_exists alpha_script_removed ''apps/Alpha/run.sh''"
  "launched_apps alpha_script_removed ''Alpha'' =
     Some \<lparr>process_of = 100, port_of = 8002, status_of = ''running''\<rparr>"
  "fst (poll 100 alpha_script_removed) = None"
  by (simp_all add: alpha_script_removed_def alpha_running_eq resolve_script_def alive_iff)
     (simp_all add: linux_host_def posixpath_join_def)

text \<open>
  C8 as it is written promises \<open>not_launched\<close> after every failed launch for a missing
  script. Alpha was launched and its script then removed: the second launch fails for the
  missing script, and the status query that follows reports the record of the first
  launch, \<open>running\<close> on port 8002.
\<close>

theorem launch_app_script_not_found_counterexample:
  "resolve_script ''Alpha'' alpha_script_removed = Some (''apps/Alpha/run.sh'', [''sh'']) \<and>
   \<not> os_path_exists alpha_script_removed ''apps/Alpha/run.sh'' \<and>
   fst (launch_app ''Alpha'' alpha_script_removed) =
     [(''status'', PyStr ''error''),
      (''message'', PyStr ''Startup script not found for Alpha at apps/Alpha/run.sh'')] \<and>
   fst (get_app_status ''Alpha'' (snd (launch_app ''Alpha'' alpha_script_removed))) =
     [(''status'', PyStr ''running''), (''port'', PyInt 8002)]"
proof -
  have launch: "launch_app ''Alpha'' alpha_script_removed =
     ([(''status'', PyStr ''error''),
       (''message'', PyStr (''Startup script not found for '' @ ''Alpha'' @ '' at ''
                            @ ''apps/Alpha/run.sh''))], alpha_script_removed)"
    using alpha_script_removed_facts(1,2) by (rule launch_app_script_missing)
  have "poll 100 alpha_script_removed = (None, alpha_script_removed)"
    using alpha_script_removed_facts(4) by (rule poll_alive)
  then have "fst (get_app_status ''Alpha'' alpha_script_removed) =
     [(''status'', PyStr ''running''), (''port'', PyInt 8002)]"
    by (simp add: get_app_status_def alpha_script_removed_facts(3))
  with launch alpha_script_removed_facts(1,2) show ?thesis by simp
qed




section \<open>The registry in reachable states\<close>

lemma settled_refl [simp]: "settled s s"
  by (simp add: settled_def)

lemma settled_trans: "settled s s1 \<Longrightarrow> settled s1 s2 \<Longrightarrow> settled s s2"
  by (simp add: settled_def)

lemma settled_log_event [simp]: "settled s (log_event evs s)"
  by (simp add: settled_def)

lemma settled_poll: "settled s (snd (poll p s))"
  by (auto simp add: settled_def poll_def Let_def split: option.splits)

lemma settled_terminate: "settled s (terminate p s)"
  by (auto simp add: settled_def terminate_def Let_def)

lemma settled_kill: "settled s (kill p s)"
  by (auto simp add: settled_def kill_def Let_def)

lemma settled_time_sleep: "settled s (time_sleep n s)"
  by (auto simp add: settled_def time_sleep_def settle_def)

lemma settled_child_exits: "settled s (child_exits p c s)"
  by (auto simp add: settled_def child_exits_def)

lemma settled_registry_update:
  "settled s s' \<Longrightarrow> settled s (s'\<lparr>launched_apps := m\<rparr>)"
  by (simp add: settled_def)

text \<open>The invariant survives a settled change that keeps the registry.\<close>

lemma registry_ok_settled:
  assumes "registry_ok s" and "settled s s'" and "launched_apps s' = launched_apps s"
  shows "registry_ok s'"
  using assms unfolding registry_ok_def settled_def by metis

text \<open>... and one that rewrites one record's status, when the new status is justified.\<close>

lemma registry_ok_set_status:
  assumes ok: "registry_ok s" and st: "settled s s'"
    and info: "launched_apps s name = Some info"
    and reg: "launched_apps s' = (launched_apps s)(name \<mapsto> info\<lparr>status_of := new\<rparr>)"
    and new: "new \<in> {''running'', ''exited'', ''stopped''}"
      "new = ''exited'' \<longrightarrow> returncode (procs s' (process_of info)) \<noteq> None"
      "new = ''stopped'' \<longrightarrow> exit_status (procs s' (process_of info)) \<noteq> None"
  shows "registry_ok s'"
  unfolding registry_ok_def
proof (intro allI impI)
  fix n i
  assume rec: "launched_apps s' n = Some i"
  show "process_of i < next_pid s' \<and>
        status_of i \<in> {''running'', ''exited'', ''stopped''} \<and>
        (status_of i = ''exited'' \<longrightarrow> returncode (procs s' (process_of i)) \<noteq> None) \<and>
        (status_of i = ''stopped'' \<longrightarrow> exit_status (procs s' (process_of i)) \<noteq> None)"
  proof (cases "n = name")
    case True
    with rec reg have i: "i = info\<lparr>status_of := new\<rparr>" by simp
    from ok info have "process_of info < next_pid s" by (simp add: registry_ok_def)
    with st have "process_of info < next_pid s'" by (simp add: settled_def)
    with new show ?thesis by (simp add: i)
  next
    case False
    with rec reg have old: "launched_apps s n = Some i" by simp
    with ok have "process_of i < next_pid s \<and>
        status_of i \<in> {''running'', ''exited'', ''stopped''} \<and>
        (status_of i = ''exited'' \<longrightarrow> returncode (procs s (process_of i)) \<noteq> None) \<and>
        (status_of i = ''stopped'' \<longrightarrow> exit_status (procs s (process_of i)) \<noteq> None)"
      unfolding registry_ok_def by blast
    with st show ?thesis unfolding settled_def by metis
  qed
qed


text \<open>The state after a status query, and after a stop request.\<close>

lemma get_app_status_state:
  assumes info: "launched_apps s name = Some info"
  shows "snd (get_app_status name s) =
     (if fst (poll (process_of info) s) = None then s
      else (snd (poll (process_of info) s))
             \<lparr>launched_apps := (launched_apps s)(name \<mapsto> info\<lparr>status_of := ''exited''\<rparr>)\<rparr>)"
proof (cases "fst (poll (process_of info) s) = None")
  case True
  then have "poll (process_of info) s = (None, s)" by (rule poll_alive)
  with info True show ?thesis by (simp add: get_app_status_def)
next
  case False
  obtain r s1 where p: "poll (process_of info) s = (r, s1)" by (cases "poll (process_of info) s")
  with False have r: "r \<noteq> None" by simp
  have again: "poll (process_of info) s1 = (r, s1)"
    using poll_again[of "process_of info" s] p r by simp
  have "launched_apps s1 = launched_apps s" using poll_keeps_registry[OF p] .
  with info p r again False show ?thesis by (auto simp add: get_app_status_def)
qed

lemma registry_ok_get_app_status:
  assumes ok: "registry_ok s"
  shows "registry_ok (snd (get_app_status name s))"
proof (cases "launched_apps s name")
  case None
  with ok show ?thesis by (simp add: get_app_status_def)
next
  case (Some info)
  show ?thesis
  proof (cases "fst (poll (process_of info) s) = None")
    case True
    with ok show ?thesis by (simp add: get_app_status_state[OF Some])
  next
    case False
    let ?s' = "(snd (poll (process_of info) s))
             \<lparr>launched_apps := (launched_apps s)(name \<mapsto> info\<lparr>status_of := ''exited''\<rparr>)\<rparr>"
    have "settled s ?s'" by (intro settled_registry_update settled_poll)
    moreover have "returncode (procs ?s' (process_of info)) \<noteq> None"
      using False by (simp add: poll_procs)
    ultimately have "registry_ok ?s'"
      using ok Some by (intro registry_ok_set_status[of s ?s' name info "''exited''"]) simp_all
    moreover from False obtain c where "fst (poll (process_of info) s) = Some c" by auto
    ultimately show ?thesis by (simp add: get_app_status_state[OF Some])
  qed
qed

lemma stop_app_state:
  assumes info: "launched_apps s name = Some info"
  shows "fst (poll (process_of info) s) \<noteq> None \<Longrightarrow>
           snd (stop_app name s) = snd (poll (process_of info) s)"
    and "fst (poll (process_of info) s) = None \<Longrightarrow>
           settled s (snd (stop_app name s))"
proof -
  assume "fst (poll (process_of info) s) \<noteq> None"
  then obtain c s1 where "poll (process_of info) s = (Some c, s1)"
    by (cases "poll (process_of info) s") auto
  with info show "snd (stop_app name s) = snd (poll (process_of info) s)"
    by (simp add: stop_app_def)
next
  assume alive: "fst (poll (process_of info) s) = None"
  let ?p = "process_of info"
  let ?s2 = "terminate ?p s"
  let ?s3 = "time_sleep 1 ?s2"
  let ?s4 = "snd (poll ?p ?s3)"
  have "settled s ?s2" by (rule settled_terminate)
  moreover have "settled ?s2 ?s3" by (rule settled_time_sleep)
  ultimately have "settled s ?s3" by (rule settled_trans)
  moreover have "settled ?s3 ?s4" by (rule settled_poll)
  ultimately have s4: "settled s ?s4" by (rule settled_trans)
  moreover have "settled ?s4 (kill ?p ?s4)" by (rule settled_kill)
  ultimately have "settled s (kill ?p ?s4)" by (rule settled_trans)
  with s4 show "settled s (snd (stop_app name s))"
    by (simp add: stop_app_running[OF info alive] Let_def settled_registry_update)
qed

lemma registry_ok_stop_app:
  assumes ok: "registry_ok s"
  shows "registry_ok (snd (stop_app name s))"
proof (cases "launched_apps s name")
  case None
  with ok show ?thesis by (simp add: stop_app_def)
next
  case (Some info)
  show ?thesis
  proof (cases "fst (poll (process_of info) s) = None")
    case False
    have "registry_ok (snd (poll (process_of info) s))"
      using ok by (rule registry_ok_settled) (simp_all add: settled_poll)
    with False show ?thesis by (simp add: stop_app_state(1)[OF Some])
  next
    case True
    note effect = stop_app_running_effect[OF Some True]
    show ?thesis
      using ok stop_app_state(2)[OF Some True] Some effect(3)
      by (rule registry_ok_set_status) (simp_all add: effect(2))
  qed
qed

lemma registry_ok_child_exits: "registry_ok s \<Longrightarrow> registry_ok (child_exits p c s)"
  by (erule registry_ok_settled) (rule settled_child_exits, simp add: child_exits_def)

lemma registry_ok_host_changes:
  "registry_ok s \<Longrightarrow>
   registry_ok (s\<lparr>os_path_exists := files, os_environ := env, bindable := ports,
                  spawn_outcome := spawns\<rparr>)"
  by (simp add: registry_ok_def)

lemma registry_ok_log_event: "registry_ok s \<Longrightarrow> registry_ok (log_event evs s)"
  by (simp add: registry_ok_def)

lemma registry_ok_launched_state:
  assumes "registry_ok s"
  shows "registry_ok (launched_state name script exe port evs r s)"
  unfolding registry_ok_def
proof (intro allI impI)
  fix n i
  assume rec: "launched_apps (launched_state name script exe port evs r s) n = Some i"
  show "process_of i < next_pid (launched_state name script exe port evs r s) \<and>
        status_of i \<in> {''running'', ''exited'', ''stopped''} \<and>
        (status_of i = ''exited'' \<longrightarrow>
           returncode (procs (launched_state name script exe port evs r s) (process_of i)) \<noteq> None) \<and>
        (status_of i = ''stopped'' \<longrightarrow>
           exit_status (procs (launched_state name script exe port evs r s) (process_of i)) \<noteq> None)"
  proof (cases "n = name")
    case True
    with rec have "i = \<lparr>process_of = next_pid s, port_of = port, status_of = ''running''\<rparr>"
      by simp
    then show ?thesis by simp
  next
    case False
    with rec have "launched_apps s n = Some i" by simp
    with assms have "process_of i < next_pid s \<and>
        status_of i \<in> {''running'', ''exited'', ''stopped''} \<and>
        (status_of i = ''exited'' \<longrightarrow> returncode (procs s (process_of i)) \<noteq> None) \<and>
        (status_of i = ''stopped'' \<longrightarrow> exit_status (procs s (process_of i)) \<noteq> None)"
      unfolding registry_ok_def by blast
    then show ?thesis by auto
  qed
qed

lemma registry_ok_launch_app:
  assumes ok: "registry_ok s"
  shows "registry_ok (snd (launch_app name s))"
proof (cases rule: launch_app_outcomes[of name s])
  case (launched script exe port evs r)
  with ok show ?thesis by (simp add: registry_ok_launched_state)
qed (use ok in \<open>simp_all add: registry_ok_log_event\<close>)

text \<open>The invariant holds in every reachable state.\<close>

lemma reachable_registry_ok: "reachable s \<Longrightarrow> registry_ok s"
proof (induction rule: reachable.induct)
  case (start s)
  then show ?case by (simp add: registry_ok_def)
next
  case (launch s app_name)
  then show ?case by (simp add: registry_ok_launch_app)
next
  case (get_status s app_name)
  then show ?case by (simp add: registry_ok_get_app_status)
next
  case (stop s app_name)
  then show ?case by (simp add: registry_ok_stop_app)
next
  case (exits s p c)
  then show ?case by (simp add: registry_ok_child_exits)
next
  case (host_changes s files env ports spawns)
  then show ?case by (simp add: registry_ok_host_changes)
qed

section \<open>The life of a record\<close>

text \<open>A call for one name leaves the records of the other names alone.\<close>

lemma get_app_status_other:
  "n \<noteq> name \<Longrightarrow> launched_apps (snd (get_app_status n s)) name = launched_apps s name"
proof (cases "launched_apps s n")
  case None
  then show ?thesis by (simp add: get_app_status_def)
next
  case (Some i)
  assume "n \<noteq> name"
  then show ?thesis by (simp add: get_app_status_state[OF Some])
qed

lemma stop_app_other:
  "n \<noteq> name \<Longrightarrow> launched_apps (snd (stop_app n s)) name = launched_apps s name"
proof (cases "launched_apps s n")
  case None
  then show ?thesis by (simp add: stop_app_def)
next
  case (Some i)
  assume other: "n \<noteq> name"
  show ?thesis
  proof (cases "fst (poll (process_of i) s) = None")
    case True
    with other show ?thesis by (simp add: stop_app_running_effect(3)[OF Some True])
  next
    case False
    then show ?thesis by (simp add: stop_app_state(1)[OF Some False])
  qed
qed

text \<open>One step, seen from one record.\<close>

lemma step_record:
  assumes ok: "registry_ok s" and info: "launched_apps s name = Some info"
  shows "\<exists>st. launched_apps (run_step x s) name = Some (info\<lparr>status_of := st\<rparr>) \<and>
           (st = status_of info \<or>
            status_of info = ''running'' \<and> st = ''exited'' \<or>
            status_of info = ''running'' \<and> st = ''stopped'' \<or>
            status_of info = ''stopped'' \<and> st = ''exited'')"
proof -
  have same: "launched_apps s' name = launched_apps s name \<Longrightarrow>
      \<exists>st. launched_apps s' name = Some (info\<lparr>status_of := st\<rparr>) \<and>
           (st = status_of info \<or>
            status_of info = ''running'' \<and> st = ''exited'' \<or>
            status_of info = ''running'' \<and> st = ''stopped'' \<or>
            status_of info = ''stopped'' \<and> st = ''exited'')" for s'
    using info by (intro exI[of _ "status_of info"]) simp
  from ok info have known: "status_of info \<in> {''running'', ''exited'', ''stopped''}"
    and exited: "status_of info = ''exited'' \<longrightarrow> returncode (procs s (process_of info)) \<noteq> None"
    and stopped: "status_of info = ''stopped'' \<longrightarrow> exit_status (procs s (process_of info)) \<noteq> None"
    unfolding registry_ok_def by blast+
  show ?thesis
  proof (cases x)
    case (ChildExits p c)
    then show ?thesis by (intro same) (simp add: child_exits_def)
  next
    case (GetStatus n)
    show ?thesis
    proof (cases "n = name")
      case False
      then show ?thesis unfolding GetStatus by (intro same) (simp add: get_app_status_other)
    next
      case True
      show ?thesis
      proof (cases "fst (poll (process_of info) s) = None")
        case alive: True
        then show ?thesis unfolding GetStatus True
          by (intro same) (simp add: get_app_status_state[OF info])
      next
        case False
        then obtain c where "fst (poll (process_of info) s) = Some c" by auto
        then have "launched_apps (run_step x s) name = Some (info\<lparr>status_of := ''exited''\<rparr>)"
          unfolding GetStatus True by (simp add: get_app_status_state[OF info])
        with known show ?thesis by (intro exI[of _ "''exited''"]) auto
      qed
    qed
  next
    case (Stop n)
    show ?thesis
    proof (cases "n = name")
      case False
      then show ?thesis unfolding Stop by (intro same) (simp add: stop_app_other)
    next
      case True
      show ?thesis
      proof (cases "fst (poll (process_of info) s) = None")
        case False
        then show ?thesis unfolding Stop True
          by (intro same) (simp add: stop_app_state(1)[OF info False])
      next
        case alive: True
        then have "returncode (procs s (process_of info)) = None"
          and "exit_status (procs s (process_of info)) = None" by (simp_all add: alive_iff)
        with known exited stopped have "status_of info = ''running''" by auto
        moreover have "launched_apps (run_step x s) name = Some (info\<lparr>status_of := ''stopped''\<rparr>)"
          unfolding Stop True by (simp add: stop_app_running_effect(3)[OF info alive])
        ultimately show ?thesis by (intro exI[of _ "''stopped''"]) simp
      qed
    qed
  qed
qed

text \<open>Once \<open>exited\<close>, a record stays as it is.\<close>

lemma registry_ok_run_step: "registry_ok s \<Longrightarrow> registry_ok (run_step x s)"
  by (cases x) (simp_all add: registry_ok_get_app_status registry_ok_stop_app registry_ok_child_exits)

lemma exited_stays:
  assumes "registry_ok s" and "launched_apps s name = Some info" and "status_of info = ''exited''"
  shows "launched_apps (run_steps xs s) name = Some info"
  using assms
proof (induction xs arbitrary: s)
  case Nil
  then show ?case by simp
next
  case (Cons x xs)
  from step_record[OF Cons.prems(1,2), of x] Cons.prems(3)
  have "launched_apps (run_step x s) name = Some (info\<lparr>status_of := ''exited''\<rparr>)" by auto
  with Cons.prems(3) have "launched_apps (run_step x s) name = Some info" by simp
  with Cons.IH[OF registry_ok_run_step[OF Cons.prems(1)] _ Cons.prems(3)]
  show ?case by simp
qed

text \<open>
  C6 (as amended). In every reachable state, a status query, a stop request or a child
  that terminates changes only the status of a record, and only from \<open>running\<close> to
  \<open>exited\<close>, from \<open>running\<close> to \<open>stopped\<close>, or from \<open>stopped\<close> to \<open>exited\<close>.
  \<open>exited\<close> is terminal: no sequence of status queries and stop requests, for any names
  and with children terminating in between, changes a record that is \<open>exited\<close>.
\<close>

theorem status_transitions:
  assumes "reachable s" and "launched_apps s name = Some info"
  shows "(\<exists>st. launched_apps (run_step x s) name = Some (info\<lparr>status_of := st\<rparr>) \<and>
            (st = status_of info \<or>
             status_of info = ''running'' \<and> st = ''exited'' \<or>
             status_of info = ''running'' \<and> st = ''stopped'' \<or>
             status_of info = ''stopped'' \<and> st = ''exited'')) \<and>
         (status_of info = ''exited'' \<longrightarrow> launched_apps (run_steps xs s) name = Some info)"
proof -
  from assms(1) have ok: "registry_ok s" by (rule reachable_registry_ok)
  from step_record[OF ok assms(2)] exited_stays[OF ok assms(2)] show ?thesis by blast
qed

section \<open>Records on the Linux host\<close>

lemma reachable_examples:
  "reachable linux_host"
  "reachable alpha_running"
  "reachable alpha_stopped"
  "reachable alpha_exited"
proof -
  show start: "reachable linux_host"
    by (rule reachable.start) (simp add: linux_host_def)
  then show running: "reachable alpha_running"
    unfolding alpha_running_def by (rule reachable.launch)
  then show "reachable alpha_stopped"
    unfolding alpha_stopped_def by (rule reachable.stop)
  from running have "reachable (child_exits 100 0 alpha_running)" by (rule reachable.exits)
  then show "reachable alpha_exited"
    unfolding alpha_exited_def by (rule reachable.get_status)
qed

lemma alpha_stopped_record:
  "launched_apps alpha_stopped ''Alpha'' =
     Some \<lparr>process_of = 100, port_of = 8002, status_of = ''stopped''\<rparr>"
  "exit_status (procs alpha_stopped 100) \<noteq> None"
proof -
  let ?info = "\<lparr>process_of = 100, port_of = 8002, status_of = ''running''\<rparr>"
  have alive: "fst (poll (process_of ?info) alpha_running) = None"
    by (simp add: alpha_info(2))
  note effect = stop_app_running_effect(2,3)[OF alpha_info(1) alive]
  from effect(2) show "launched_apps alpha_stopped ''Alpha'' =
     Some \<lparr>process_of = 100, port_of = 8002, status_of = ''stopped''\<rparr>"
    by (simp add: alpha_stopped_def)
  from effect(1) show "exit_status (procs alpha_stopped 100) \<noteq> None"
    by (simp add: alpha_stopped_def)
qed

lemma alpha_exited_record:
  "launched_apps alpha_exited ''Alpha'' =
     Some \<lparr>process_of = 100, port_of = 8002, status_of = ''exited''\<rparr>"
  using get_app_status_state[OF alpha_exited_info(1)] alpha_exited_info(2)
  by (simp add: alpha_exited_def)

text \<open>
  A stop request on the running Alpha, and three more steps on the Alpha that is
  \<open>exited\<close>.
\<close>

theorem status_transitions_witness:
  "(\<exists>st. launched_apps (run_step (Stop ''Alpha'') alpha_running) ''Alpha'' =
            Some \<lparr>process_of = 100, port_of = 8002, status_of = st\<rparr> \<and>
          (st = ''running'' \<or> st = ''exited'' \<or> st = ''stopped'')) \<and>
   launched_apps (run_steps [Stop ''Alpha'', ChildExits 100 1, GetStatus ''Alpha''] alpha_exited)
     ''Alpha'' = Some \<lparr>process_of = 100, port_of = 8002, status_of = ''exited''\<rparr>"
proof -
  have a: "\<exists>st. launched_apps (run_step (Stop ''Alpha'') alpha_running) ''Alpha'' =
            Some \<lparr>process_of = 100, port_of = 8002, status_of = st\<rparr> \<and>
          (st = ''running'' \<or> st = ''exited'' \<or> st = ''stopped'')"
    using status_transitions[OF reachable_examples(2) alpha_info(1), of "Stop ''Alpha''" "[]"]
    by auto
  have b: "launched_apps
      (run_steps [Stop ''Alpha'', ChildExits 100 1, GetStatus ''Alpha''] alpha_exited) ''Alpha''
      = Some \<lparr>process_of = 100, port_of = 8002, status_of = ''exited''\<rparr>"
    using status_transitions[OF reachable_examples(4) alpha_exited_record,
        of "Stop ''Alpha''" "[Stop ''Alpha'', ChildExits 100 1, GetStatus ''Alpha'']"]
    by simp
  from a b show ?thesis by (intro conjI)
qed

text \<open>
  C6 as it is written has \<open>stopped\<close> terminal. Alpha is launched and stopped, a
  reachable state in which its record is \<open>stopped\<close>; one status query later the record
  is \<open>exited\<close>.
\<close>

theorem status_transitions_counterexample:
  "reachable alpha_stopped \<and>
   launched_apps alpha_stopped ''Alpha'' =
     Some \<lparr>process_of = 100, port_of = 8002, status_of = ''stopped''\<rparr> \<and>
   launched_apps (run_steps [GetStatus ''Alpha''] alpha_stopped) ''Alpha'' =
     Some \<lparr>process_of = 100, port_of = 8002, status_of = ''exited''\<rparr>"
proof -
  have "fst (poll 100 alpha_stopped) \<noteq> None"
    using alpha_stopped_record(2) by (rule poll_dead)
  then obtain c where "fst (poll 100 alpha_stopped) = Some c" by auto
  then have "launched_apps (run_steps [GetStatus ''Alpha''] alpha_stopped) ''Alpha'' =
     Some \<lparr>process_of = 100, port_of = 8002, status_of = ''exited''\<rparr>"
    using get_app_status_state[OF alpha_stopped_record(1)] by simp
  with reachable_examples(3) alpha_stopped_record(1) show ?thesis by (intro conjI)
qed

text \<open>
  C7. The registry is a map, one record for a name. In every reachable state, a launch
  that succeeds for a name that has a record replaces that record by a new one, with a
  process that is not the old one, the port the allocator returns now, and the status
  \<open>running\<close>; no name is added. Nothing is asked about the old record or its child: the
  old child is left as it is, and the launch makes no system call but those of the port
  scan and the spawn.
\<close>

theorem relaunch_overwrites:
  assumes "reachable s" and "launched_apps s name = Some old"
    and "launch_app name s = (res, s')"
    and "map_of res ''status'' = Some (PyStr ''success'')"
  shows "\<exists>port. fst (find_free_port 8000 s) = Inr port \<and>
           launched_apps s' = (launched_apps s)(name \<mapsto>
              \<lparr>process_of = next_pid s, port_of = port, status_of = ''running''\<rparr>) \<and>
           dom (launched_apps s') = dom (launched_apps s) \<and>
           process_of old \<noteq> next_pid s \<and>
           procs s' (process_of old) = procs s (process_of old) \<and>
           (\<exists>argv env flags. trace s' =
              trace (snd (find_free_port 8000 s)) @ [Spawn (next_pid s) argv env flags])"
proof -
  have ok: "map_of (fst (launch_app name s)) ''status'' = Some (PyStr ''success'')"
    using assms(3,4) by simp
  from assms(1) have "registry_ok s" by (rule reachable_registry_ok)
  with assms(2) have older: "process_of old < next_pid s" unfolding registry_ok_def by blast
  show ?thesis
  proof (cases rule: launch_app_outcomes[of name s])
    case (launched script exe port evs r)
    with assms(3) have s': "s' = launched_state name script exe port evs r s" by simp
    have "fst (find_free_port 8000 s) = Inr port" "trace (snd (find_free_port 8000 s)) = trace s @ evs"
      using launched(3) by simp_all
    moreover have "dom (launched_apps s') = dom (launched_apps s)"
      using assms(2) by (auto simp add: s')
    ultimately show ?thesis using older
      by (intro exI[of _ port]) (simp add: s')
  qed (use ok in simp_all)
qed

text \<open>Alpha launched a second time while its first child runs.\<close>

lemma relaunch_alpha:
  "map_of (fst (launch_app ''Alpha'' alpha_running)) ''status'' = Some (PyStr ''success'')"
  "next_pid alpha_running = 101"
  "fst (find_free_port 8000 alpha_running) = Inr 8002"
proof -
  have "bindable alpha_running = (\<lambda>p. 8002 \<le> p \<and> p \<le> 65535)"
    by (simp add: alpha_running_eq linux_host_def)
  note free = find_free_port_8002[OF this]
  then show "fst (find_free_port 8000 alpha_running) = Inr 8002" by simp
  have rs: "resolve_script ''Alpha'' alpha_running = Some (''apps/Alpha/run.sh'', [''sh''])"
    by (simp add: resolve_script_def alpha_running_eq) (simp add: linux_host_def posixpath_join_def)
  have "os_path_exists alpha_running ''apps/Alpha/run.sh''"
    by (simp add: alpha_running_eq linux_host_def)
  moreover have "spawn_outcome alpha_running ([''sh''] @ [''apps/Alpha/run.sh''])
     ((os_environ alpha_running)(''PORT'' \<mapsto> str_int 8002))
     = Inr \<lparr>term_reaction = Some (- 15), kill_status = - 9\<rparr>"
    by (simp add: alpha_running_eq linux_host_def)
  ultimately show "map_of (fst (launch_app ''Alpha'' alpha_running)) ''status''
      = Some (PyStr ''success'')"
    using launch_app_success[OF rs _ free] by simp
  show "next_pid alpha_running = 101" by (simp add: alpha_running_eq)
qed

text \<open>
  The second launch of Alpha succeeds: the record now has the process 101, and the child
  100 of the first launch is running as before, no longer in the registry.
\<close>

theorem relaunch_overwrites_witness:
  "launched_apps (snd (launch_app ''Alpha'' alpha_running)) =
     (launched_apps alpha_running)(''Alpha'' \<mapsto>
        \<lparr>process_of = 101, port_of = 8002, status_of = ''running''\<rparr>) \<and>
   procs (snd (launch_app ''Alpha'' alpha_running)) 100 = procs alpha_running 100 \<and>
   exit_status (procs alpha_running 100) = None"
proof -
  have "launch_app ''Alpha'' alpha_running =
      (fst (launch_app ''Alpha'' alpha_running), snd (launch_app ''Alpha'' alpha_running))"
    by simp
  from relaunch_overwrites[OF reachable_examples(2) alpha_info(1) this relaunch_alpha(1)]
  show ?thesis by (auto simp add: relaunch_alpha(2,3) alpha_running_fields)
qed

end
